theory Spec2Isabelle
  imports Main "HOL-Library.Word"
begin

section \<open>JavaScript values used by the translator component\<close>

text \<open>
  A JavaScript string is a sequence of UTF-16 code units. String literals of the source are
  ASCII, so they are written as Isabelle strings and converted with \<open>ascii\<close>.
\<close>

type_synonym js_string = "16 word list"

definition ascii :: "string \<Rightarrow> js_string" where
  "ascii cs = map of_char cs"

text \<open>
  \<open>String.prototype.trim\<close> removes the ECMAScript WhiteSpace and LineTerminator code points
  from both ends: TAB, LF, VT, FF, CR, SP, NBSP, the other Unicode space separators, LS, PS
  and the byte order mark. All of them are single code units.
\<close>

definition isWhiteSpace :: "16 word \<Rightarrow> bool" where
  "isWhiteSpace c \<longleftrightarrow>
     c \<in> {0x0009, 0x000A, 0x000B, 0x000C, 0x000D, 0x0020, 0x00A0, 0x1680,
          0x2000, 0x2001, 0x2002, 0x2003, 0x2004, 0x2005, 0x2006, 0x2007,
          0x2008, 0x2009, 0x200A, 0x2028, 0x2029, 0x202F, 0x205F, 0x3000, 0xFEFF}"

definition trim :: "js_string \<Rightarrow> js_string" where
  "trim s = rev (dropWhile isWhiteSpace (rev (dropWhile isWhiteSpace s)))"

text \<open>
  The values a parsed JSON body can hold, and \<open>undefined\<close>. Numbers are kept as integers:
  no claim depends on a fractional number.
\<close>

datatype js_value =
    JUndefined
  | JNull
  | JBoolean bool
  | JNumber int
  | JString js_string
  | JObject "(js_string \<times> js_value) list"
  | JArray "js_value list"

text \<open>ToBoolean, as applied by \<open>!\<close>, \<open>||\<close> and \<open>&&\<close>.\<close>

fun truthy :: "js_value \<Rightarrow> bool" where
  "truthy JUndefined = False"
| "truthy JNull = False"
| "truthy (JBoolean b) = b"
| "truthy (JNumber n) = (n \<noteq> 0)"
| "truthy (JString s) = (s \<noteq> [])"
| "truthy (JObject fs) = True"
| "truthy (JArray vs) = True"

text \<open>\<open>a || b\<close> is \<open>a\<close> when \<open>a\<close> is truthy and \<open>b\<close> otherwise.\<close>

definition js_or :: "js_value \<Rightarrow> js_value \<Rightarrow> js_value" where
  "js_or a b = (if truthy a then a else b)"

definition nullish :: "js_value \<Rightarrow> bool" where
  "nullish v \<longleftrightarrow> v = JUndefined \<or> v = JNull"

text \<open>
  Reading the property \<open>k\<close> of a value that is neither \<open>null\<close> nor \<open>undefined\<close>: an object
  gives the field or \<open>undefined\<close>; a primitive or an array gives \<open>undefined\<close> for the two keys
  the component reads, \<open>translated_text\<close> and \<open>message\<close>, which no prototype defines.
\<close>

fun own_property :: "js_value \<Rightarrow> js_string \<Rightarrow> js_value" where
  "own_property (JObject fs) k = (case map_of fs k of None \<Rightarrow> JUndefined | Some v \<Rightarrow> v)"
| "own_property v k = JUndefined"

section \<open>The HTTP client as the component sees it\<close>

text \<open>
  \<open>await axios.post(url, body)\<close> either yields a response object or throws an error. The
  error carries the response when the provider answered with a status the client rejects,
  and no response when none arrived (timeout, refused connection).
\<close>

record response =
  status :: nat
  data :: js_value

datatype settlement = Fulfilled response | Rejected "response option"

datatype js_error = TypeError | AxiosError "response option"

text \<open>\<open>v.k\<close> throws a TypeError on \<open>null\<close> and \<open>undefined\<close>; \<open>v?.k\<close> gives \<open>undefined\<close> there.\<close>

definition member :: "js_value \<Rightarrow> js_string \<Rightarrow> js_error + js_value" where
  "member v k = (if nullish v then Inl TypeError else Inr (own_property v k))"

definition optional_member :: "js_value \<Rightarrow> js_string \<Rightarrow> js_value" where
  "optional_member v k = (if nullish v then JUndefined else own_property v k)"

text \<open>
  The post's URL and JSON body; \<open>req_text\<close> is the body's \<open>text\<close> key.
\<close>

record request =
  url :: js_string
  req_text :: js_string
  source_language :: js_string
  target_language :: js_string

section \<open>The component state and its handlers\<close>

text \<open>The six \<open>useState\<close> cells of \<open>App\<close>.\<close>

record app_state =
  inputText :: js_string
  originalLanguage :: js_string
  destinationLanguage :: js_string
  translationResult :: js_value
  errorMessage :: js_value
  isTranslating :: bool

definition initial_app :: app_state where
  "initial_app =
     \<lparr>inputText = [], originalLanguage = ascii ''en'', destinationLanguage = ascii ''es'',
      translationResult = JString [], errorMessage = JString [], isTranslating = False\<rparr>"

text \<open>What a handler does, in program order: calls of the state setters and the HTTP post.\<close>

datatype effect =
    SetInputText js_string
  | SetOriginalLanguage js_string
  | SetDestinationLanguage js_string
  | SetTranslationResult js_value
  | SetErrorMessage js_value
  | SetIsTranslating bool
  | Post request

definition validation_message :: js_value where
  "validation_message = JString (ascii ''Please enter some text.'')"

definition no_translation :: js_value where
  "no_translation = JString (ascii ''No translation available.'')"

definition failure_message :: js_value where
  "failure_message = JString (ascii ''Failed to translate text. Please try again.'')"

definition translate_url :: js_string where
  "translate_url = ascii ''http://127.0.0.1:5000/translate''"

text \<open>
  \<open>handleTranslationSubmit\<close> up to its \<open>await\<close>: the validation with its early return, the
  three resets, and the post of the state's text and language codes.
\<close>

definition handleTranslationSubmit :: "app_state \<Rightarrow> effect list" where
  "handleTranslationSubmit a =
     (if \<not> truthy (JString (trim (inputText a)))
      then [SetErrorMessage validation_message]
      else [SetErrorMessage (JString []),
            SetTranslationResult (JString []),
            SetIsTranslating True,
            Post \<lparr>url = translate_url, req_text = inputText a,
                  source_language = originalLanguage a,
                  target_language = destinationLanguage a\<rparr>])"

text \<open>
  The body of the \<open>try\<close> after the \<open>await\<close>: the value handed to \<open>setTranslationResult\<close>, or
  the error thrown, by the client or by \<open>response.data.translated_text\<close> itself.
\<close>

definition try_block :: "settlement \<Rightarrow> js_error + js_value" where
  "try_block r =
     (case r of
        Rejected resp \<Rightarrow> Inl (AxiosError resp)
      | Fulfilled resp \<Rightarrow>
          (case member (data resp) (ascii ''translated_text'') of
             Inl e \<Rightarrow> Inl e
           | Inr v \<Rightarrow> Inr (js_or v no_translation)))"

text \<open>\<open>err.response?.data?.message\<close>\<close>

fun error_response_message :: "js_error \<Rightarrow> js_value" where
  "error_response_message TypeError = JUndefined"
| "error_response_message (AxiosError None) = JUndefined"
| "error_response_message (AxiosError (Some resp)) = optional_member (data resp) (ascii ''message'')"

text \<open>\<open>handleTranslationSubmit\<close> from the \<open>await\<close> on: \<open>try\<close>, \<open>catch\<close>, \<open>finally\<close>.\<close>

definition handleTranslationSubmit_resume :: "settlement \<Rightarrow> effect list" where
  "handleTranslationSubmit_resume r =
     (case try_block r of
        Inr v \<Rightarrow> [SetTranslationResult v]
      | Inl err \<Rightarrow> [SetErrorMessage (js_or (error_response_message err) failure_message)])
     @ [SetIsTranslating False]"

text \<open>The render: the button's \<open>disabled\<close> attribute and the two conditional blocks.\<close>

definition button_disabled :: "app_state \<Rightarrow> bool" where
  "button_disabled a = isTranslating a"

definition shows_error :: "app_state \<Rightarrow> bool" where
  "shows_error a = truthy (errorMessage a)"

definition shows_result :: "app_state \<Rightarrow> bool" where
  "shows_result a = truthy (translationResult a)"

section \<open>The component together with the network\<close>

text \<open>
  \<open>sent\<close> logs every request posted; \<open>pending\<close> holds the requests whose \<open>await\<close> has not
  returned yet, oldest first.
\<close>

record system =
  app :: app_state
  sent :: "request list"
  pending :: "request list"

definition initial :: system where
  "initial = \<lparr>app = initial_app, sent = [], pending = []\<rparr>"

fun set_state :: "app_state \<Rightarrow> effect \<Rightarrow> app_state" where
  "set_state a (SetInputText v) = a\<lparr>inputText := v\<rparr>"
| "set_state a (SetOriginalLanguage v) = a\<lparr>originalLanguage := v\<rparr>"
| "set_state a (SetDestinationLanguage v) = a\<lparr>destinationLanguage := v\<rparr>"
| "set_state a (SetTranslationResult v) = a\<lparr>translationResult := v\<rparr>"
| "set_state a (SetErrorMessage v) = a\<lparr>errorMessage := v\<rparr>"
| "set_state a (SetIsTranslating b) = a\<lparr>isTranslating := b\<rparr>"
| "set_state a (Post q) = a"

fun posts :: "effect list \<Rightarrow> request list" where
  "posts [] = []"
| "posts (Post q # es) = q # posts es"
| "posts (e # es) = posts es"

definition perform :: "effect list \<Rightarrow> system \<Rightarrow> system" where
  "perform es s =
     \<lparr>app = foldl set_state (app s) es,
      sent = sent s @ posts es,
      pending = pending s @ posts es\<rparr>"

text \<open>
  A call of the handler, whatever the button's state. The component renders again after
  every event, so the handler's closure reads the current text and language codes.
\<close>

definition submit :: "system \<Rightarrow> system" where
  "submit s = perform (handleTranslationSubmit (app s)) s"

text \<open>The \<open>i\<close>-th pending request settles with \<open>r\<close> and its handler resumes.\<close>

definition settle :: "nat \<Rightarrow> settlement \<Rightarrow> system \<Rightarrow> system" where
  "settle i r s =
     (if i < length (pending s)
      then perform (handleTranslationSubmit_resume r)
             (s\<lparr>pending := take i (pending s) @ drop (Suc i) (pending s)\<rparr>)
      else s)"

text \<open>
  The events of the interface: the three \<open>onChange\<close> handlers, a click on the button (a
  disabled button dispatches no click), and the settlement of a pending request.
\<close>

datatype event =
    ChangeInputText js_string
  | ChangeOriginalLanguage js_string
  | ChangeDestinationLanguage js_string
  | Click
  | Settle nat settlement

fun step :: "system \<Rightarrow> event \<Rightarrow> system" where
  "step s (ChangeInputText v) = perform [SetInputText v] s"
| "step s (ChangeOriginalLanguage v) = perform [SetOriginalLanguage v] s"
| "step s (ChangeDestinationLanguage v) = perform [SetDestinationLanguage v] s"
| "step s Click = (if button_disabled (app s) then s else submit s)"
| "step s (Settle i r) = settle i r s"

definition run :: "system \<Rightarrow> event list \<Rightarrow> system" where
  "run s evs = foldl step s evs"

inductive reachable :: "system \<Rightarrow> bool" where
  reachable_initial: "reachable initial"
| reachable_step: "reachable s \<Longrightarrow> reachable (step s e)"

section \<open>Provider replies used in the examples\<close>

definition translated :: "string \<Rightarrow> settlement" where
  "translated x =
     Fulfilled \<lparr>status = 200, data = JObject [(ascii ''translated_text'', JString (ascii x))]\<rparr>"

definition refused :: "nat \<Rightarrow> string \<Rightarrow> settlement" where
  "refused code m =
     Rejected (Some \<lparr>status = code, data = JObject [(ascii ''message'', JString (ascii m))]\<rparr>)"

section \<open>An invariant of the interface\<close>

text \<open>
  What every state reached through the interface satisfies: the flag is set exactly when a
  request is pending, a pending request is alone and is the last one sent, nothing is on
  display while the flag is set, and an error displayed next to a result is the validation
  message.
\<close>

definition consistent :: "system \<Rightarrow> bool" where
  "consistent s \<longleftrightarrow>
     (isTranslating (app s) \<longleftrightarrow> pending s \<noteq> []) \<and>
     (pending s \<noteq> [] \<longrightarrow> sent s \<noteq> [] \<and> pending s = [last (sent s)]) \<and>
     (isTranslating (app s) \<longrightarrow>
        errorMessage (app s) = JString [] \<and> translationResult (app s) = JString []) \<and>
     (truthy (errorMessage (app s)) \<and> truthy (translationResult (app s)) \<longrightarrow>
        errorMessage (app s) = validation_message)"

section \<open>The handler, branch by branch\<close>

lemma handleTranslationSubmit_blank:
  "trim (inputText a) = [] \<Longrightarrow> handleTranslationSubmit a = [SetErrorMessage validation_message]"
  by (simp add: handleTranslationSubmit_def)

lemma handleTranslationSubmit_valid:
  "trim (inputText a) \<noteq> [] \<Longrightarrow>
   handleTranslationSubmit a =
     [SetErrorMessage (JString []), SetTranslationResult (JString []), SetIsTranslating True,
      Post \<lparr>url = translate_url, req_text = inputText a,
            source_language = originalLanguage a, target_language = destinationLanguage a\<rparr>]"
  by (simp add: handleTranslationSubmit_def)

lemma truthy_messages:
  "truthy validation_message" "truthy no_translation" "truthy failure_message"
  by (simp_all add: validation_message_def no_translation_def failure_message_def ascii_def)

lemma submit_blank:
  "trim (inputText (app s)) = [] \<Longrightarrow>
   submit s = s\<lparr>app := (app s)\<lparr>errorMessage := validation_message\<rparr>\<rparr>"
  by (simp add: submit_def perform_def handleTranslationSubmit_blank)

lemma submit_valid:
  "trim (inputText (app s)) \<noteq> [] \<Longrightarrow>
   submit s =
     (let q = \<lparr>url = translate_url, req_text = inputText (app s),
               source_language = originalLanguage (app s),
               target_language = destinationLanguage (app s)\<rparr>
      in \<lparr>app = (app s)\<lparr>errorMessage := JString [], translationResult := JString [],
                         isTranslating := True\<rparr>,
          sent = sent s @ [q], pending = pending s @ [q]\<rparr>)"
  by (simp add: submit_def perform_def handleTranslationSubmit_valid Let_def)

lemma js_or_truthy: "truthy b \<Longrightarrow> truthy (js_or a b)"
  by (simp add: js_or_def)

lemma resume_shape:
  "(\<exists>v. truthy v \<and>
        handleTranslationSubmit_resume r = [SetTranslationResult v, SetIsTranslating False])
   \<or> (\<exists>v. truthy v \<and>
        handleTranslationSubmit_resume r = [SetErrorMessage v, SetIsTranslating False])"
  by (auto simp: handleTranslationSubmit_resume_def try_block_def js_or_truthy truthy_messages
           split: sum.splits settlement.splits)

lemma member_object:
  "member (JObject fs) k = Inr (case map_of fs k of None \<Rightarrow> JUndefined | Some v \<Rightarrow> v)"
  by (simp add: member_def nullish_def)

lemma settle_submit_fulfilled:
  assumes "trim (inputText (app s)) \<noteq> []"
    and "member (data resp) (ascii ''translated_text'') = Inr v"
  shows "app (settle (length (pending s)) (Fulfilled resp) (submit s)) =
           (app s)\<lparr>errorMessage := JString [], translationResult := js_or v no_translation,
                    isTranslating := False\<rparr>"
  using assms
  by (simp add: submit_valid Let_def settle_def perform_def handleTranslationSubmit_resume_def
        try_block_def)

lemma settle_submit_thrown:
  assumes "trim (inputText (app s)) \<noteq> []" and "try_block r = Inl err"
  shows "app (settle (length (pending s)) r (submit s)) =
           (app s)\<lparr>errorMessage := js_or (error_response_message err) failure_message,
                    translationResult := JString [], isTranslating := False\<rparr>"
  using assms
  by (simp add: submit_valid Let_def settle_def perform_def handleTranslationSubmit_resume_def)

section \<open>The invariant holds in every reachable state\<close>

lemma consistent_initial: "consistent initial"
  by (simp add: consistent_def initial_def initial_app_def)

lemma consistent_change:
  "consistent s \<Longrightarrow> consistent (perform [SetInputText v] s)"
  "consistent s \<Longrightarrow> consistent (perform [SetOriginalLanguage v] s)"
  "consistent s \<Longrightarrow> consistent (perform [SetDestinationLanguage v] s)"
  by (simp_all add: consistent_def perform_def)

lemma consistent_click:
  assumes "consistent s"
  shows "consistent (step s Click)"
proof (cases "trim (inputText (app s)) = []")
  case True
  with assms show ?thesis
    by (auto simp: consistent_def button_disabled_def submit_blank [OF True])
next
  case False
  with assms show ?thesis
    by (auto simp: consistent_def button_disabled_def submit_valid [OF False] Let_def)
qed

lemma consistent_settle:
  assumes "consistent s"
  shows "consistent (settle i r s)"
proof (cases "i < length (pending s)")
  case False
  with assms show ?thesis by (simp add: settle_def)
next
  case True
  with assms have p: "pending s = [last (sent s)]"
    and e: "errorMessage (app s) = JString []"
    and x: "translationResult (app s) = JString []"
    by (auto simp: consistent_def)
  from True p have "i = 0" by simp
  with resume_shape [of r] p e x show ?thesis
    by (auto simp: settle_def perform_def consistent_def)
qed

lemma consistent_step: "consistent s \<Longrightarrow> consistent (step s e)"
  by (cases e) (simp_all add: consistent_change consistent_click consistent_settle del: step.simps(4))

lemma reachable_consistent: "reachable s \<Longrightarrow> consistent s"
  by (induction rule: reachable.induct) (simp_all add: consistent_initial consistent_step)

lemma reachable_run: "reachable s \<Longrightarrow> reachable (run s evs)"
  unfolding run_def
  by (induction evs arbitrary: s) (simp_all add: reachable_step)

lemma settle_exactly_one:
  assumes "consistent s" and "i < length (pending s)"
  shows "truthy (errorMessage (app (settle i r s))) \<noteq>
         truthy (translationResult (app (settle i r s)))"
    and "\<not> isTranslating (app (settle i r s))"
    and "pending (settle i r s) = []"
proof -
  from assms have p: "pending s = [last (sent s)]"
    and e: "errorMessage (app s) = JString []"
    and x: "translationResult (app s) = JString []"
    by (auto simp: consistent_def)
  from assms(2) p have i: "i = 0" by simp
  from resume_shape [of r] p e x i
  show "truthy (errorMessage (app (settle i r s))) \<noteq>
        truthy (translationResult (app (settle i r s)))"
    by (auto simp: settle_def perform_def)
  from resume_shape [of r] p i
  show "\<not> isTranslating (app (settle i r s))"
    by (auto simp: settle_def perform_def)
  from resume_shape [of r] p i
  show "pending (settle i r s) = []"
    by (auto simp: settle_def perform_def)
qed

text \<open>The definitions a run on concrete input unfolds.\<close>

lemmas eval_defs =
  submit_def settle_def perform_def handleTranslationSubmit_def
  handleTranslationSubmit_resume_def try_block_def member_def optional_member_def nullish_def
  js_or_def initial_def initial_app_def translated_def refused_def trim_def isWhiteSpace_def
  ascii_def run_def button_disabled_def

section \<open>Validation\<close>

text \<open>
  C1. When the text is empty after trimming, a call of the handler sets the error message
  to the validation message, which is displayed, and posts nothing: the handler's effects
  hold no request, and the log of sent requests and the pending requests are as before.
  The language codes are arbitrary.
\<close>

theorem blank_input_fails_without_request:
  assumes "trim (inputText (app s)) = []"
  shows "errorMessage (app (submit s)) = validation_message
       \<and> shows_error (app (submit s))
       \<and> posts (handleTranslationSubmit (app s)) = []
       \<and> sent (submit s) = sent s \<and> pending (submit s) = pending s"
  using assms
  by (simp add: submit_blank shows_error_def truthy_messages handleTranslationSubmit_blank)

theorem blank_input_fails_without_request_witness:
  "trim (inputText (app (step initial (ChangeInputText (ascii ''   ''))))) = []
   \<and> errorMessage (app (submit (step initial (ChangeInputText (ascii ''   ''))))) =
       JString (ascii ''Please enter some text.'')
   \<and> sent (submit (step initial (ChangeInputText (ascii ''   '')))) = []"
proof -
  have b: "trim (inputText (app (step initial (ChangeInputText (ascii ''   ''))))) = []"
    by (simp add: perform_def initial_def trim_def ascii_def isWhiteSpace_def)
  have s: "sent (step initial (ChangeInputText (ascii ''   ''))) = []"
    by (simp add: perform_def initial_def)
  from blank_input_fails_without_request [OF b] b s show ?thesis
    by (simp add: validation_message_def)
qed

section \<open>Settlement of a valid submission\<close>

text \<open>
  C2. When the text is not blank and the request is fulfilled with a body whose
  \<open>translated_text\<close> is a non-empty string \<open>x\<close>, then after the settlement the translation
  result is exactly \<open>x\<close> and is displayed, no error is set, and the flag is off.
\<close>

theorem translated_text_is_displayed:
  assumes "trim (inputText (app s)) \<noteq> []"
    and "data resp = JObject fs"
    and "map_of fs (ascii ''translated_text'') = Some (JString x)"
    and "x \<noteq> []"
    and "s' = settle (length (pending s)) (Fulfilled resp) (submit s)"
  shows "translationResult (app s') = JString x
       \<and> errorMessage (app s') = JString []
       \<and> \<not> isTranslating (app s')
       \<and> shows_result (app s') \<and> \<not> shows_error (app s')"
proof -
  have "member (data resp) (ascii ''translated_text'') = Inr (JString x)"
    using assms(2,3) by (simp add: member_object)
  from settle_submit_fulfilled [OF assms(1) this] assms(4,5) show ?thesis
    by (simp add: js_or_def shows_result_def shows_error_def)
qed

theorem translated_text_is_displayed_witness:
  "trim (ascii ''Hello'') \<noteq> []
   \<and> translationResult
        (app (settle 0 (translated ''Hola'')
               (submit (step initial (ChangeInputText (ascii ''Hello'')))))) =
       JString (ascii ''Hola'')"
proof -
  let ?s = "step initial (ChangeInputText (ascii ''Hello''))"
  let ?resp = "\<lparr>status = 200, data = JObject [(ascii ''translated_text'', JString (ascii ''Hola''))]\<rparr>"
  have t: "trim (ascii ''Hello'') \<noteq> []"
    by (simp add: trim_def ascii_def isWhiteSpace_def)
  then have v: "trim (inputText (app ?s)) \<noteq> []"
    by (simp add: perform_def)
  have p: "pending ?s = []"
    by (simp add: perform_def initial_def)
  have x: "ascii ''Hola'' \<noteq> []"
    by (simp add: ascii_def)
  have "translationResult (app (settle (length (pending ?s)) (Fulfilled ?resp) (submit ?s))) =
          JString (ascii ''Hola'')"
    using translated_text_is_displayed [OF v _ _ x refl, of ?resp
        "[(ascii ''translated_text'', JString (ascii ''Hola''))]"]
    by simp
  with t p show ?thesis
    by (simp add: translated_def)
qed

text \<open>
  C6. When the text is not blank and the request is fulfilled with a body that has no
  \<open>translated_text\<close>, or an empty one, the translation result becomes the sentinel
  ``No translation available.'' and is displayed; no error is set.
\<close>

theorem missing_translation_gives_sentinel:
  assumes "trim (inputText (app s)) \<noteq> []"
    and "data resp = JObject fs"
    and "map_of fs (ascii ''translated_text'') = None
         \<or> map_of fs (ascii ''translated_text'') = Some (JString [])"
    and "s' = settle (length (pending s)) (Fulfilled resp) (submit s)"
  shows "translationResult (app s') = no_translation
       \<and> errorMessage (app s') = JString []
       \<and> \<not> isTranslating (app s')
       \<and> shows_result (app s') \<and> \<not> shows_error (app s')"
proof -
  from assms(2,3) obtain v where
    m: "member (data resp) (ascii ''translated_text'') = Inr v" and f: "\<not> truthy v"
    by (auto simp: member_object)
  from settle_submit_fulfilled [OF assms(1) m] f assms(4) show ?thesis
    by (simp add: js_or_def shows_result_def shows_error_def truthy_messages)
qed

theorem missing_translation_gives_sentinel_witness:
  "trim (ascii ''Hello'') \<noteq> []
   \<and> translationResult
       (app (settle 0 (Fulfilled \<lparr>status = 200, data = JObject []\<rparr>)
              (submit (step initial (ChangeInputText (ascii ''Hello'')))))) =
       JString (ascii ''No translation available.'')
   \<and> translationResult
       (app (settle 0 (translated [])
              (submit (step initial (ChangeInputText (ascii ''Hello'')))))) =
       JString (ascii ''No translation available.'')"
proof -
  let ?s = "step initial (ChangeInputText (ascii ''Hello''))"
  let ?fs = "[(ascii ''translated_text'', JString [])]"
  have t: "trim (ascii ''Hello'') \<noteq> []"
    by (simp add: trim_def ascii_def isWhiteSpace_def)
  then have v: "trim (inputText (app ?s)) \<noteq> []"
    by (simp add: perform_def)
  have p: "length (pending ?s) = 0"
    by (simp add: perform_def initial_def)
  from missing_translation_gives_sentinel
         [OF v _ _ refl, of "\<lparr>status = 200, data = JObject []\<rparr>" "[]"] p
  have 1: "translationResult
             (app (settle 0 (Fulfilled \<lparr>status = 200, data = JObject []\<rparr>) (submit ?s))) =
           no_translation"
    by simp
  from missing_translation_gives_sentinel
         [OF v _ _ refl, of "\<lparr>status = 200, data = JObject ?fs\<rparr>" ?fs] p
  have 2: "translationResult (app (settle 0 (translated []) (submit ?s))) = no_translation"
    by (simp add: translated_def ascii_def)
  from t 1 2 show ?thesis
    by (simp add: no_translation_def)
qed

text \<open>
  C5 as stated fails on a failure body whose \<open>message\<close> is the empty string: the
  handler shows the generic message, not the empty one.
\<close>

theorem empty_message_counterexample:
  "errorMessage
     (app (settle 0 (refused 429 [])
            (submit (step initial (ChangeInputText (ascii ''Hello'')))))) = failure_message
   \<and> failure_message \<noteq> JString []"
  by (simp add: eval_defs failure_message_def)

text \<open>
  C5, amended. When the request of a valid submission is rejected: a body with a non-empty
  string \<open>message\<close> makes that message the error, verbatim; no response at all (timeout,
  connection error), or a response whose \<open>message\<close> is missing or falsy, makes the generic
  message the error. In each case the error is displayed, no result is, and the flag is off.
\<close>

theorem provider_failure_message:
  assumes "trim (inputText (app s)) \<noteq> []"
    and "s' = settle (length (pending s)) (Rejected ro) (submit s)"
  shows "(ro = Some resp \<and> data resp = JObject fs
            \<and> map_of fs (ascii ''message'') = Some (JString m) \<and> m \<noteq> []
          \<longrightarrow> errorMessage (app s') = JString m)
       \<and> (ro = None \<longrightarrow> errorMessage (app s') = failure_message)
       \<and> (ro = Some resp \<and> \<not> truthy (optional_member (data resp) (ascii ''message''))
          \<longrightarrow> errorMessage (app s') = failure_message)
       \<and> shows_error (app s') \<and> \<not> shows_result (app s') \<and> \<not> isTranslating (app s')"
proof -
  have t: "try_block (Rejected ro) = Inl (AxiosError ro)"
    by (simp add: try_block_def)
  note a = settle_submit_thrown [OF assms(1) t]
  have 1: "errorMessage (app s') = JString m"
    if "ro = Some resp" "data resp = JObject fs"
      "map_of fs (ascii ''message'') = Some (JString m)" "m \<noteq> []"
    using that a assms(2) by (simp add: optional_member_def nullish_def js_or_def)
  have 2: "errorMessage (app s') = failure_message" if "ro = None"
    using that a assms(2) by (simp add: js_or_def)
  have 3: "errorMessage (app s') = failure_message"
    if "ro = Some resp" "\<not> truthy (optional_member (data resp) (ascii ''message''))"
    using that a assms(2) by (simp add: js_or_def)
  have 4: "shows_error (app s') \<and> \<not> shows_result (app s') \<and> \<not> isTranslating (app s')"
    using a assms(2) by (simp add: shows_error_def shows_result_def js_or_truthy truthy_messages)
  from 1 2 3 4 show ?thesis by blast
qed

theorem provider_failure_message_witness:
  "trim (ascii ''Hello'') \<noteq> []
   \<and> errorMessage
       (app (settle 0 (refused 429 ''rate limited'')
              (submit (step initial (ChangeInputText (ascii ''Hello'')))))) =
       JString (ascii ''rate limited'')
   \<and> errorMessage
       (app (settle 0 (Rejected None)
              (submit (step initial (ChangeInputText (ascii ''Hello'')))))) = failure_message
   \<and> errorMessage
       (app (settle 0 (Rejected (Some \<lparr>status = 500, data = JString (ascii ''oops'')\<rparr>))
              (submit (step initial (ChangeInputText (ascii ''Hello'')))))) = failure_message"
proof -
  let ?s = "step initial (ChangeInputText (ascii ''Hello''))"
  let ?fs = "[(ascii ''message'', JString (ascii ''rate limited''))]"
  let ?resp = "\<lparr>status = 429, data = JObject ?fs\<rparr>"
  let ?raw = "\<lparr>status = 500, data = JString (ascii ''oops'')\<rparr>"
  have t: "trim (ascii ''Hello'') \<noteq> []"
    by (simp add: trim_def ascii_def isWhiteSpace_def)
  then have v: "trim (inputText (app ?s)) \<noteq> []"
    by (simp add: perform_def)
  have p: "length (pending ?s) = 0"
    by (simp add: perform_def initial_def)
  have m: "ascii ''rate limited'' \<noteq> []"
    by (simp add: ascii_def)
  have u: "\<not> truthy (optional_member (data ?raw) (ascii ''message''))"
    by (simp add: optional_member_def nullish_def)
  from provider_failure_message
         [OF v refl, of "Some ?resp" ?resp ?fs "ascii ''rate limited''"] m p
  have 1: "errorMessage (app (settle 0 (refused 429 ''rate limited'') (submit ?s))) =
             JString (ascii ''rate limited'')"
    by (simp add: refused_def)
  from provider_failure_message [OF v refl, of None] p
  have 2: "errorMessage (app (settle 0 (Rejected None) (submit ?s))) = failure_message"
    by simp
  from provider_failure_message [OF v refl, of "Some ?raw" ?raw] u p
  have 3: "errorMessage (app (settle 0 (Rejected (Some ?raw)) (submit ?s))) = failure_message"
    by simp
  from t 1 2 3 show ?thesis by blast
qed

section \<open>The request\<close>

text \<open>
  C4 as stated fails on the input \<open>'' Hello ''\<close>: the request carries the text with its
  two spaces, not the trimmed text.
\<close>

theorem request_text_counterexample:
  "trim (ascii '' Hello '') = ascii ''Hello''
   \<and> map req_text
        (posts (handleTranslationSubmit (initial_app\<lparr>inputText := ascii '' Hello ''\<rparr>))) =
       [ascii '' Hello '']
   \<and> ascii '' Hello '' \<noteq> ascii ''Hello''"
  by (simp add: eval_defs)

text \<open>
  C4, amended. A valid submission posts one request, whose text is the input text as typed
  (trimming serves the validation only, so the text equals the trimmed input exactly when
  the input has no surrounding white space) and whose language codes are those of the
  state, unmodified.
\<close>

theorem request_carries_raw_input:
  assumes "trim (inputText (app s)) \<noteq> []"
  shows "posts (handleTranslationSubmit (app s)) =
           [\<lparr>url = translate_url, req_text = inputText (app s),
             source_language = originalLanguage (app s),
             target_language = destinationLanguage (app s)\<rparr>]
       \<and> sent (submit s) = sent s @ posts (handleTranslationSubmit (app s))
       \<and> (req_text (last (sent (submit s))) = trim (inputText (app s))
            \<longleftrightarrow> inputText (app s) = trim (inputText (app s)))"
  using assms by (simp add: handleTranslationSubmit_valid submit_def perform_def)

theorem request_carries_raw_input_witness:
  "trim (ascii '' Hello '') \<noteq> []
   \<and> map req_text (sent (submit (step initial (ChangeInputText (ascii '' Hello ''))))) =
       [ascii '' Hello '']
   \<and> map source_language (sent (submit (step initial (ChangeInputText (ascii '' Hello ''))))) =
       [ascii ''en'']
   \<and> map target_language (sent (submit (step initial (ChangeInputText (ascii '' Hello ''))))) =
       [ascii ''es'']"
proof -
  let ?s = "step initial (ChangeInputText (ascii '' Hello ''))"
  have t: "trim (ascii '' Hello '') \<noteq> []"
    by (simp add: trim_def ascii_def isWhiteSpace_def)
  then have v: "trim (inputText (app ?s)) \<noteq> []"
    by (simp add: perform_def)
  have i: "sent ?s = []" "inputText (app ?s) = ascii '' Hello ''"
    "originalLanguage (app ?s) = ascii ''en''" "destinationLanguage (app ?s) = ascii ''es''"
    by (simp_all add: perform_def initial_def initial_app_def)
  from request_carries_raw_input [OF v] t i show ?thesis
    by simp
qed

section \<open>Concurrent submissions\<close>

text \<open>
  C3 as stated fails through the interface. The user submits ``one'', then, before that
  request resolves, changes the text to ``two'' and submits again. The second submit is
  rejected by the disabled button: only the request for ``one'' is ever sent, it stays
  pending, and its resolution is what updates the outcome.
\<close>

theorem rejected_second_submit_counterexample:
  "reachable (run initial [ChangeInputText (ascii ''one''), Click,
                           ChangeInputText (ascii ''two''), Click])
   \<and> inputText (app (run initial [ChangeInputText (ascii ''one''), Click,
                                   ChangeInputText (ascii ''two''), Click])) = ascii ''two''
   \<and> map req_text (sent (run initial [ChangeInputText (ascii ''one''), Click,
                                      ChangeInputText (ascii ''two''), Click])) = [ascii ''one'']
   \<and> map req_text (pending (run initial [ChangeInputText (ascii ''one''), Click,
                                         ChangeInputText (ascii ''two''), Click])) = [ascii ''one'']
   \<and> translationResult
        (app (run initial [ChangeInputText (ascii ''one''), Click,
                           ChangeInputText (ascii ''two''), Click,
                           Settle 0 (translated ''uno'')])) = JString (ascii ''uno'')"
proof -
  have "reachable (run initial [ChangeInputText (ascii ''one''), Click,
                                ChangeInputText (ascii ''two''), Click])"
    by (rule reachable_run [OF reachable_initial])
  then show ?thesis
    by (simp add: eval_defs)
qed

text \<open>
  C3, amended. In every reachable state at most one request is pending, and it is the last
  one sent. While it is pending a further submit changes nothing: no request is sent and
  the pending one is not cancelled. The resolution of the pending request is applied, not
  discarded: it changes the state, turns the flag off and leaves exactly one of the error
  and the result on display. So of two submits made before either resolves, the first
  one's resolution is the one observed.
\<close>

theorem second_submit_rejected_first_applied:
  assumes "reachable s"
  shows "length (pending s) \<le> 1
       \<and> (pending s \<noteq> [] \<longrightarrow> sent s \<noteq> [] \<and> pending s = [last (sent s)])
       \<and> (pending s \<noteq> [] \<longrightarrow> step s Click = s)
       \<and> (pending s \<noteq> [] \<longrightarrow>
            app (step s (Settle 0 r)) \<noteq> app s
            \<and> \<not> isTranslating (app (step s (Settle 0 r)))
            \<and> shows_error (app (step s (Settle 0 r))) \<noteq>
                shows_result (app (step s (Settle 0 r))))"
proof -
  note c = reachable_consistent [OF assms]
  have 1: "length (pending s) \<le> 1
       \<and> (pending s \<noteq> [] \<longrightarrow> sent s \<noteq> [] \<and> pending s = [last (sent s)])
       \<and> (pending s \<noteq> [] \<longrightarrow> step s Click = s)"
    using c by (auto simp: consistent_def button_disabled_def)
  have 2: "app (step s (Settle 0 r)) \<noteq> app s
            \<and> \<not> isTranslating (app (step s (Settle 0 r)))
            \<and> shows_error (app (step s (Settle 0 r))) \<noteq>
                shows_result (app (step s (Settle 0 r)))"
    if p: "pending s \<noteq> []"
  proof -
    from p have l: "0 < length (pending s)" by simp
    from c p have t: "isTranslating (app s)" by (simp add: consistent_def)
    from settle_exactly_one(2) [OF c l, of r]
    have f: "\<not> isTranslating (app (settle 0 r s))" .
    with t have "app (settle 0 r s) \<noteq> app s" by auto
    with f settle_exactly_one(1) [OF c l, of r] show ?thesis
      by (simp add: shows_error_def shows_result_def)
  qed
  from 1 2 show ?thesis by blast
qed

theorem second_submit_rejected_first_applied_witness:
  "reachable (run initial [ChangeInputText (ascii ''one''), Click,
                           ChangeInputText (ascii ''two'')])
   \<and> map req_text (pending (run initial [ChangeInputText (ascii ''one''), Click,
                                         ChangeInputText (ascii ''two'')])) = [ascii ''one'']
   \<and> step (run initial [ChangeInputText (ascii ''one''), Click,
                         ChangeInputText (ascii ''two'')]) Click =
       run initial [ChangeInputText (ascii ''one''), Click, ChangeInputText (ascii ''two'')]
   \<and> app (step (run initial [ChangeInputText (ascii ''one''), Click,
                              ChangeInputText (ascii ''two'')])
              (Settle 0 (translated ''uno''))) \<noteq>
       app (run initial [ChangeInputText (ascii ''one''), Click,
                         ChangeInputText (ascii ''two'')])"
proof -
  let ?s = "run initial [ChangeInputText (ascii ''one''), Click,
                         ChangeInputText (ascii ''two'')]"
  have r: "reachable ?s"
    by (rule reachable_run [OF reachable_initial])
  have p: "map req_text (pending ?s) = [ascii ''one'']"
    by (simp add: eval_defs)
  then have "pending ?s \<noteq> []" by auto
  with second_submit_rejected_first_applied [OF r, of "translated ''uno''"] r p show ?thesis
    by blast
qed

text \<open>
  C9. While \<open>isTranslating\<close> is set the button is disabled and a click changes nothing:
  no request is posted and the pending one is not cancelled. Every event other than a
  settlement leaves the flag set and the pending and sent requests as they were.
\<close>

theorem button_disabled_while_translating:
  assumes "isTranslating (app s)"
  shows "button_disabled (app s)
       \<and> step s Click = s
       \<and> ((\<forall>i r. e \<noteq> Settle i r) \<longrightarrow>
            isTranslating (app (step s e)) \<and> pending (step s e) = pending s
            \<and> sent (step s e) = sent s)"
  using assms by (cases e) (simp_all add: button_disabled_def perform_def)

theorem button_disabled_while_translating_witness:
  "isTranslating (app (run initial [ChangeInputText (ascii ''Hello''), Click]))
   \<and> button_disabled (app (run initial [ChangeInputText (ascii ''Hello''), Click]))
   \<and> run initial [ChangeInputText (ascii ''Hello''), Click, Click] =
       run initial [ChangeInputText (ascii ''Hello''), Click]
   \<and> map req_text (sent (run initial [ChangeInputText (ascii ''Hello''), Click,
                                      ChangeInputText (ascii ''Bye'')])) = [ascii ''Hello'']"
proof -
  let ?s = "run initial [ChangeInputText (ascii ''Hello''), Click]"
  have t: "isTranslating (app ?s)"
    by (simp add: eval_defs)
  have s: "map req_text (sent ?s) = [ascii ''Hello'']"
    by (simp add: eval_defs)
  have a: "run initial [ChangeInputText (ascii ''Hello''), Click, e] = step ?s e" for e
    by (simp add: run_def)
  have n: "\<forall>i r. ChangeInputText (ascii ''Bye'') \<noteq> Settle i r"
    by simp
  from button_disabled_while_translating [OF t, of "ChangeInputText (ascii ''Bye'')"] n t s
  show ?thesis
    unfolding a by simp
qed

section \<open>The flag and the display\<close>

text \<open>
  C8. In every reachable state \<open>isTranslating\<close> is set exactly when a request is pending.
  A valid submission sets it right before the post, with no post earlier in the handler,
  and the settlement of a pending request, fulfilled or rejected, leaves it off with
  nothing pending.
\<close>

theorem flag_tracks_pending_request:
  assumes "reachable s"
  shows "(isTranslating (app s) \<longleftrightarrow> pending s \<noteq> [])
       \<and> (trim (inputText (app s)) \<noteq> [] \<longrightarrow>
            (\<exists>pre q. handleTranslationSubmit (app s) = pre @ [SetIsTranslating True, Post q]
                     \<and> posts pre = []))
       \<and> (i < length (pending s) \<longrightarrow>
            \<not> isTranslating (app (settle i r s)) \<and> pending (settle i r s) = [])"
proof -
  note c = reachable_consistent [OF assms]
  have 1: "isTranslating (app s) \<longleftrightarrow> pending s \<noteq> []"
    using c by (simp add: consistent_def)
  have 2: "\<exists>pre q. handleTranslationSubmit (app s) = pre @ [SetIsTranslating True, Post q]
                     \<and> posts pre = []" if "trim (inputText (app s)) \<noteq> []"
  proof -
    let ?pre = "[SetErrorMessage (JString []), SetTranslationResult (JString [])]"
    let ?q = "\<lparr>url = translate_url, req_text = inputText (app s),
               source_language = originalLanguage (app s),
               target_language = destinationLanguage (app s)\<rparr>"
    have "handleTranslationSubmit (app s) = ?pre @ [SetIsTranslating True, Post ?q]
          \<and> posts ?pre = []"
      using that by (simp add: handleTranslationSubmit_valid)
    then show ?thesis by blast
  qed
  have 3: "i < length (pending s) \<longrightarrow>
            \<not> isTranslating (app (settle i r s)) \<and> pending (settle i r s) = []"
    using settle_exactly_one(2,3) [OF c] by simp
  from 1 2 3 show ?thesis by blast
qed

theorem flag_tracks_pending_request_witness:
  "reachable (run initial [ChangeInputText (ascii ''Hello''), Click])
   \<and> trim (inputText (app (run initial [ChangeInputText (ascii ''Hello''), Click]))) \<noteq> []
   \<and> isTranslating (app (run initial [ChangeInputText (ascii ''Hello''), Click]))
   \<and> pending (run initial [ChangeInputText (ascii ''Hello''), Click]) \<noteq> []
   \<and> \<not> isTranslating (app (settle 0 (translated ''Hola'')
                               (run initial [ChangeInputText (ascii ''Hello''), Click])))
   \<and> \<not> isTranslating (app (settle 0 (Rejected None)
                               (run initial [ChangeInputText (ascii ''Hello''), Click])))"
proof -
  let ?s = "run initial [ChangeInputText (ascii ''Hello''), Click]"
  have r: "reachable ?s"
    by (rule reachable_run [OF reachable_initial])
  have t: "isTranslating (app ?s)"
    by (simp add: eval_defs)
  have v: "trim (inputText (app ?s)) \<noteq> []"
    by (simp add: eval_defs)
  from flag_tracks_pending_request [OF r, of 0 "translated ''Hola''"]
       flag_tracks_pending_request [OF r, of 0 "Rejected None"] r t v
  show ?thesis
    by auto
qed

text \<open>
  C7 as stated fails after a translation followed by a submission of blank text: the
  validation message and the earlier translation are displayed together.
\<close>

theorem error_beside_result_counterexample:
  "reachable (run initial [ChangeInputText (ascii ''Hello''), Click,
                           Settle 0 (translated ''Hola''), ChangeInputText [], Click])
   \<and> shows_error (app (run initial [ChangeInputText (ascii ''Hello''), Click,
                                     Settle 0 (translated ''Hola''), ChangeInputText [], Click]))
   \<and> shows_result (app (run initial [ChangeInputText (ascii ''Hello''), Click,
                                      Settle 0 (translated ''Hola''), ChangeInputText [], Click]))"
proof -
  let ?s = "run initial [ChangeInputText (ascii ''Hello''), Click,
                         Settle 0 (translated ''Hola''), ChangeInputText [], Click]"
  have "reachable ?s"
    by (rule reachable_run [OF reachable_initial])
  moreover have "errorMessage (app ?s) = validation_message"
    by (simp add: eval_defs)
  moreover have "translationResult (app ?s) = JString (ascii ''Hola'')"
    by (simp add: eval_defs)
  ultimately show ?thesis
    by (simp add: shows_error_def shows_result_def truthy_messages) (simp add: ascii_def)
qed

text \<open>
  C7, amended. In every reachable state where an error and a result are displayed together
  the error is the validation message; while a request is in flight neither is displayed,
  and after its settlement exactly one of them is. A submission that passes validation
  clears the error and the result before it posts its request.
\<close>

theorem display_exclusive_except_validation:
  assumes "reachable s"
  shows "(shows_error (app s) \<and> shows_result (app s) \<longrightarrow>
            errorMessage (app s) = validation_message)
       \<and> (isTranslating (app s) \<longrightarrow> \<not> shows_error (app s) \<and> \<not> shows_result (app s))
       \<and> (i < length (pending s) \<longrightarrow>
            shows_error (app (settle i r s)) \<noteq> shows_result (app (settle i r s)))
       \<and> (trim (inputText (app s)) \<noteq> [] \<longrightarrow>
            (\<exists>q. handleTranslationSubmit (app s) =
                   [SetErrorMessage (JString []), SetTranslationResult (JString []),
                    SetIsTranslating True, Post q]))"
proof -
  note c = reachable_consistent [OF assms]
  have 1: "shows_error (app s) \<and> shows_result (app s) \<longrightarrow>
             errorMessage (app s) = validation_message"
    using c by (simp add: consistent_def shows_error_def shows_result_def)
  have 2: "isTranslating (app s) \<longrightarrow> \<not> shows_error (app s) \<and> \<not> shows_result (app s)"
    using c by (simp add: consistent_def shows_error_def shows_result_def)
  have 3: "i < length (pending s) \<longrightarrow>
            shows_error (app (settle i r s)) \<noteq> shows_result (app (settle i r s))"
    using settle_exactly_one(1) [OF c] by (simp add: shows_error_def shows_result_def)
  have 4: "trim (inputText (app s)) \<noteq> [] \<longrightarrow>
            (\<exists>q. handleTranslationSubmit (app s) =
                   [SetErrorMessage (JString []), SetTranslationResult (JString []),
                    SetIsTranslating True, Post q])"
    by (simp add: handleTranslationSubmit_valid)
  from 1 2 3 4 show ?thesis by blast
qed

theorem display_exclusive_except_validation_witness:
  "reachable (run initial [ChangeInputText (ascii ''Hello''), Click])
   \<and> trim (inputText (app (run initial [ChangeInputText (ascii ''Hello''), Click]))) \<noteq> []
   \<and> isTranslating (app (run initial [ChangeInputText (ascii ''Hello''), Click]))
   \<and> \<not> shows_error (app (run initial [ChangeInputText (ascii ''Hello''), Click]))
   \<and> \<not> shows_result (app (run initial [ChangeInputText (ascii ''Hello''), Click]))
   \<and> 0 < length (pending (run initial [ChangeInputText (ascii ''Hello''), Click]))
   \<and> shows_error (app (settle 0 (Rejected None)
                         (run initial [ChangeInputText (ascii ''Hello''), Click])))
       \<noteq> shows_result (app (settle 0 (Rejected None)
                              (run initial [ChangeInputText (ascii ''Hello''), Click])))"
proof -
  let ?s = "run initial [ChangeInputText (ascii ''Hello''), Click]"
  have r: "reachable ?s"
    by (rule reachable_run [OF reachable_initial])
  have t: "isTranslating (app ?s)"
    by (simp add: eval_defs)
  have v: "trim (inputText (app ?s)) \<noteq> []"
    by (simp add: eval_defs)
  have p: "0 < length (pending ?s)"
    by (simp add: eval_defs)
  from display_exclusive_except_validation [OF r, of 0 "Rejected None"] r t v p show ?thesis
    by blast
qed

text \<open>
  C10. When the text is blank after trimming, a call of the handler changes the error
  message and nothing else: the translation result, the flag, the text and the two
  language codes are as before, and so are the sent and pending requests.
\<close>

theorem rejection_changes_only_error:
  assumes "trim (inputText (app s)) = []"
  shows "submit s = s\<lparr>app := (app s)\<lparr>errorMessage := validation_message\<rparr>\<rparr>
       \<and> translationResult (app (submit s)) = translationResult (app s)
       \<and> isTranslating (app (submit s)) = isTranslating (app s)
       \<and> inputText (app (submit s)) = inputText (app s)
       \<and> originalLanguage (app (submit s)) = originalLanguage (app s)
       \<and> destinationLanguage (app (submit s)) = destinationLanguage (app s)"
  using assms by (simp add: submit_blank)

theorem rejection_changes_only_error_witness:
  "trim (inputText (app (run initial [ChangeInputText (ascii ''Hello''), Click,
                                     Settle 0 (translated ''Hola''), ChangeInputText []]))) = []
   \<and> translationResult
       (app (submit (run initial [ChangeInputText (ascii ''Hello''), Click,
                                  Settle 0 (translated ''Hola''), ChangeInputText []]))) =
       JString (ascii ''Hola'')
   \<and> errorMessage
       (app (submit (run initial [ChangeInputText (ascii ''Hello''), Click,
                                  Settle 0 (translated ''Hola''), ChangeInputText []]))) =
       validation_message"
proof -
  let ?s = "run initial [ChangeInputText (ascii ''Hello''), Click,
                         Settle 0 (translated ''Hola''), ChangeInputText []]"
  have b: "trim (inputText (app ?s)) = []"
    by (simp add: eval_defs)
  have x: "translationResult (app ?s) = JString (ascii ''Hola'')"
    by (simp add: eval_defs)
  have "translationResult (app (submit ?s)) = translationResult (app ?s)
      \<and> errorMessage (app (submit ?s)) = validation_message"
    using rejection_changes_only_error [OF b] by simp
  with b x show ?thesis by simp
qed

end
